theory Spec2Isabelle
  imports Main "HOL-Library.Word" "HOL-Library.AList" "HOL-Library.Sublist"
begin

section \<open>Data model (worker/src/types.ts)\<close>

text \<open>
  A JavaScript \<open>Map\<close> keeps its entries in insertion order, \<open>set\<close> on a present key
  replaces the value in place and \<open>delete\<close> removes the entry: an association list with
  \<^const>\<open>AList.update\<close>, \<^const>\<open>AList.delete\<close> and \<^const>\<open>map_of\<close>.
\<close>

type_synonym bytes = "8 word list"

datatype role = Owner | Editor | Viewer

datatype fvalue = VText string | VNum int | VBool bool

record Item =
  item_id :: string
  item_fields :: "(string \<times> fvalue) list"
  checked :: bool
  updatedAt :: int

record PresenceUser =
  email :: string
  name :: string
  color :: string

record ConnectedClient =
  user :: PresenceUser
  role :: role

datatype field_type = FText | FNumber | FCheckbox | FSelect

record Field =
  field_id :: string
  label :: string
  field_type :: field_type
  options :: "string list option"

record Share =
  share_email :: string
  share_role :: role

record ListMeta =
  list_id :: string
  list_name :: string
  list_schema :: "Field list"
  createdAt :: int
  ownerEmail :: string
  shares :: "Share list"

section \<open>Wire protocol\<close>

text \<open>Messages the object sends (the \<open>type\<close> tag of the JSON text, or a binary frame).\<close>

datatype server_msg =
    ItemsChanged "Item list"
  | CrdtSync bytes
  | Presence "PresenceUser list"
  | ErrorMsg string
  | ItemAdded Item
  | ItemUpdated Item
  | ItemDeleted string
  | SchemaChanged "Field list"
  | CrdtUpdate "int list"
  | BinaryFrame bytes

text \<open>
  What \<open>JSON.parse(event.data)\<close> gives: one of the three intents the handler tests
  for, a message with any other \<open>type\<close>, or a parse failure (the exception is caught by
  the handler's \<open>try\<close>).
\<close>

datatype client_msg =
    MCrdtUpdate "int list"
  | MItemToggle string bool
  | MItemUpdateFields string "(string \<times> fvalue) list"
  | MOther
  | MMalformed

datatype ws_data = Binary bytes | Text client_msg

section \<open>The ListDO object (worker/src/list-do.ts)\<close>

text \<open>
  Observable effects, in the order the code performs them: a successful
  \<open>ws.send\<close> on the socket of a client key, and a \<open>storage.put\<close> of the items or of
  the Yjs document.
\<close>

datatype event =
    Send string server_msg
  | PutItems "(string \<times> Item) list"
  | PutSchema "Field list"
  | PutMeta ListMeta
  | KvPutList string ListMeta
  | PutYjsDoc bytes

record ListDO =
  clients :: "(string \<times> ConnectedClient) list"
  items :: "(string \<times> Item) list"
  schema :: "Field list"
  listMeta :: "ListMeta option"
  yjsDocState :: "bytes option"
  initialized :: bool
  storage_items :: "(string \<times> Item) list option"
  storage_schema :: "Field list option"
  storage_meta :: "ListMeta option"
  storage_yjsDoc :: "bytes option"
  timers :: nat
  trace :: "event list"

text \<open>
  The object: its fields, the four storage keys it writes (a write is taken to
  succeed), the number of pending \<open>setTimeout\<close> callbacks and the trace of what it
  has done. The socket of a client is identified with the client's key.

  \<open>initialize\<close>: on the first request the items, the schema, the list record and the
  Yjs document are loaded from storage.
\<close>

definition initialize :: "ListDO \<Rightarrow> ListDO" where
  "initialize s =
     (if initialized s then s
      else s\<lparr>items := (case storage_items s of
                           None \<Rightarrow> items s
                         | Some stored \<Rightarrow> fold (\<lambda>(i, item). AList.update i item) stored (items s)),
             schema := (case storage_schema s of None \<Rightarrow> schema s | Some f \<Rightarrow> f),
             listMeta := (case storage_meta s of None \<Rightarrow> listMeta s | Some m \<Rightarrow> Some m),
             yjsDocState := (case storage_yjsDoc s of
                               None \<Rightarrow> yjsDocState s
                             | Some b \<Rightarrow> Some b),
             initialized := True\<rparr>)"

text \<open>
  \<open>saveItems\<close> copies the map into a plain object, \<open>obj[id] = item\<close> for each
  entry, and puts the object. An assignment to the key \<open>__proto__\<close> sets the prototype
  of the object and creates no property. The properties of an object are enumerated (by
  the structured clone of \<open>put\<close>, and by \<open>Object.entries\<close> on reload) with the
  array indices first, in ascending order, then the other keys in the order of their
  creation. An array index is the decimal numeral, without leading zeros, of a number
  below \<open>2^32 - 1\<close>.
\<close>

definition is_digit :: "char \<Rightarrow> bool" where
  "is_digit c = (48 \<le> (of_char c :: nat) \<and> (of_char c :: nat) \<le> 57)"

definition digits_value :: "string \<Rightarrow> nat" where
  "digits_value k = foldl (\<lambda>n c. 10 * n + ((of_char c :: nat) - 48)) 0 k"

definition array_index :: "string \<Rightarrow> nat option" where
  "array_index k =
     (if k \<noteq> [] \<and> list_all is_digit k \<and> (k = ''0'' \<or> hd k \<noteq> CHR ''0'')
         \<and> digits_value k < 4294967295
      then Some (digits_value k) else None)"

definition index_rank :: "string \<Rightarrow> nat" where
  "index_rank k = (case array_index k of None \<Rightarrow> 0 | Some n \<Rightarrow> n)"

definition obj_set :: "string \<Rightarrow> 'v \<Rightarrow> (string \<times> 'v) list \<Rightarrow> (string \<times> 'v) list" where
  "obj_set k v obj = (if k = ''__proto__'' then obj else AList.update k v obj)"

definition own_entries :: "(string \<times> 'v) list \<Rightarrow> (string \<times> 'v) list" where
  "own_entries obj =
     sort_key (\<lambda>(k, v). index_rank k) (filter (\<lambda>(k, v). array_index k \<noteq> None) obj)
     @ filter (\<lambda>(k, v). array_index k = None) obj"

definition to_record :: "(string \<times> 'v) list \<Rightarrow> (string \<times> 'v) list" where
  "to_record al = own_entries (fold (\<lambda>(i, item). obj_set i item) al [])"

definition saveItems :: "ListDO \<Rightarrow> ListDO" where
  "saveItems s =
     s\<lparr>storage_items := Some (to_record (items s)),
       trace := trace s @ [PutItems (to_record (items s))]\<rparr>"

definition saveSchema :: "ListDO \<Rightarrow> ListDO" where
  "saveSchema s = s\<lparr>storage_schema := Some (schema s), trace := trace s @ [PutSchema (schema s)]\<rparr>"

text \<open>\<open>saveMeta\<close> also writes the list's record into the KV index of the worker.\<close>

definition saveMeta :: "ListDO \<Rightarrow> ListDO" where
  "saveMeta s =
     (case listMeta s of
        None \<Rightarrow> s
      | Some m \<Rightarrow> s\<lparr>storage_meta := Some m,
                     trace := trace s @ [PutMeta m, KvPutList (list_id m) m]\<rparr>)"

text \<open>\<open>if (this.yjsDocState)\<close>: any \<open>Uint8Array\<close>, also an empty one, is truthy.\<close>

definition saveYjsDoc :: "ListDO \<Rightarrow> ListDO" where
  "saveYjsDoc s =
     (case yjsDocState s of
        None \<Rightarrow> s
      | Some b \<Rightarrow> s\<lparr>storage_yjsDoc := Some b, trace := trace s @ [PutYjsDoc b]\<rparr>)"

text \<open>
  \<open>ws.send\<close> either delivers or throws. Which sockets throw is an input of every
  operation: \<open>throws key\<close> says that the socket of client \<open>key\<close> throws on send.
  \<open>None\<close> is the exception.
\<close>

definition ws_send :: "(string \<Rightarrow> bool) \<Rightarrow> string \<Rightarrow> server_msg \<Rightarrow> ListDO \<Rightarrow> ListDO option" where
  "ws_send throws key m s =
     (if throws key then None else Some (s\<lparr>trace := trace s @ [Send key m]\<rparr>))"

text \<open>
  \<open>broadcast\<close>: the loop visits the entries the map had at the start; deleting the
  current entry does not disturb the iteration.
\<close>

fun broadcast_loop ::
  "(string \<Rightarrow> bool) \<Rightarrow> server_msg \<Rightarrow> string option \<Rightarrow> (string \<times> ConnectedClient) list \<Rightarrow> ListDO \<Rightarrow> ListDO" where
  "broadcast_loop throws m excludeKey [] s = s"
| "broadcast_loop throws m excludeKey ((key, client) # rest) s =
     (if Some key = excludeKey then broadcast_loop throws m excludeKey rest s
      else (case ws_send throws key m s of
              Some s' \<Rightarrow> broadcast_loop throws m excludeKey rest s'
            | None \<Rightarrow> broadcast_loop throws m excludeKey rest
                        (s\<lparr>clients := AList.delete key (clients s)\<rparr>)))"

definition broadcast :: "(string \<Rightarrow> bool) \<Rightarrow> server_msg \<Rightarrow> string option \<Rightarrow> ListDO \<Rightarrow> ListDO" where
  "broadcast throws m excludeKey s = broadcast_loop throws m excludeKey (clients s) s"

text \<open>\<open>broadcastPresence\<close>: the connected users, one per email, in connection order.\<close>

fun presence_users :: "(string \<times> ConnectedClient) list \<Rightarrow> string list \<Rightarrow> PresenceUser list" where
  "presence_users [] seen = []"
| "presence_users ((key, client) # rest) seen =
     (if email (user client) \<in> set seen then presence_users rest seen
      else user client # presence_users rest (email (user client) # seen))"

definition broadcastPresence :: "(string \<Rightarrow> bool) \<Rightarrow> ListDO \<Rightarrow> ListDO" where
  "broadcastPresence throws s = broadcast throws (Presence (presence_users (clients s) [])) None s"

subsection \<open>fetch\<close>

text \<open>
  The request as \<open>fetch\<close> classifies it, in the order of its tests: the method
  \<open>OPTIONS\<close>, the header \<open>Upgrade: websocket\<close>, then method and path.
  \<open>ReqUpgrade\<close> carries the client key (the code builds it from the email, the clock
  and \<open>Math.random()\<close>) and the query parameters \<open>email\<close>, \<open>name\<close>,
  \<open>color\<close> and \<open>role\<close>, each possibly absent; the worker sets \<open>role\<close> to one
  of the three roles. \<open>ItemUpdates\<close> is the \<open>Partial<Item>\<close> of the PATCH body.
\<close>

record ItemUpdates =
  upd_id :: "string option"
  upd_fields :: "(string \<times> fvalue) list option"
  upd_checked :: "bool option"
  upd_updatedAt :: "int option"

datatype do_request =
    ReqOptions
  | ReqUpgrade string "string option" "string option" "string option" "role option"
  | ReqInit ListMeta
  | ReqGetItems
  | ReqPostItem Item
  | ReqPatchItem string ItemUpdates
  | ReqDeleteItem string
  | ReqPatchSchema "Field list"
  | ReqClearDone
  | ReqOther

datatype do_response =
    RespNull nat
  | RespOk
  | RespItems "Field list" "Item list"
  | RespItem Item
  | RespCleared nat
  | RespNotFound
  | RespException

fun status :: "do_response \<Rightarrow> nat" where
  "status (RespNull n) = n"
| "status RespNotFound = 404"
| "status RespException = 500"
| "status _ = 200"

text \<open>\<open>a || b\<close> on an optional string: absent and empty are both falsy.\<close>

definition or_default :: "string option \<Rightarrow> string \<Rightarrow> string" where
  "or_default p d = (case p of None \<Rightarrow> d | Some v \<Rightarrow> if v = [] then d else v)"

text \<open>
  \<open>handleWebSocket\<close>. The two snapshot sends are outside any \<open>try\<close>: a throw
  leaves the method with what was done so far. \<open>setTimeout\<close> adds a pending
  presence broadcast.
\<close>

definition handleWebSocket ::
  "(string \<Rightarrow> bool) \<Rightarrow> string \<Rightarrow> string option \<Rightarrow> string option \<Rightarrow> string option \<Rightarrow> role option
     \<Rightarrow> ListDO \<Rightarrow> do_response \<times> ListDO" where
  "handleWebSocket throws clientKey pe pn pc pr s =
     (let userEmail = or_default pe [];
          userName = or_default pn ''Anonymous'';
          userColor = or_default pc ''#3B82F6'';
          userRole = (case pr of None \<Rightarrow> Viewer | Some r \<Rightarrow> r);
          s1 = s\<lparr>clients := AList.update clientKey
                  \<lparr>user = \<lparr>email = userEmail, name = userName, color = userColor\<rparr>,
                   role = userRole\<rparr> (clients s)\<rparr>
      in case ws_send throws clientKey (ItemsChanged (map snd (items s1))) s1 of
           None \<Rightarrow> (RespException, s1)
         | Some s2 \<Rightarrow>
             (case (case yjsDocState s2 of
                      None \<Rightarrow> Some s2
                    | Some b \<Rightarrow> if length b > 0 then ws_send throws clientKey (CrdtSync b) s2
                                else Some s2) of
                None \<Rightarrow> (RespException, s2)
              | Some s3 \<Rightarrow> (RespNull 101, s3\<lparr>timers := Suc (timers s3)\<rparr>)))"

text \<open>\<open>{ ...existing, ...updates, updatedAt: Date.now() }\<close>\<close>

definition apply_updates :: "Item \<Rightarrow> ItemUpdates \<Rightarrow> int \<Rightarrow> Item" where
  "apply_updates existing updates now =
     \<lparr>item_id = (case upd_id updates of None \<Rightarrow> item_id existing | Some i \<Rightarrow> i),
      item_fields = (case upd_fields updates of None \<Rightarrow> item_fields existing | Some f \<Rightarrow> f),
      checked = (case upd_checked updates of None \<Rightarrow> checked existing | Some c \<Rightarrow> c),
      updatedAt = now\<rparr>"

text \<open>The second loop of the clear-done route: delete, then broadcast, for each id.\<close>

fun clear_loop :: "(string \<Rightarrow> bool) \<Rightarrow> string list \<Rightarrow> ListDO \<Rightarrow> ListDO" where
  "clear_loop throws [] s = s"
| "clear_loop throws (i # ids) s =
     clear_loop throws ids
       (broadcast throws (ItemDeleted i) None (s\<lparr>items := AList.delete i (items s)\<rparr>))"

definition fetch :: "(string \<Rightarrow> bool) \<Rightarrow> int \<Rightarrow> do_request \<Rightarrow> ListDO \<Rightarrow> do_response \<times> ListDO" where
  "fetch throws now req s0 =
     (let s = initialize s0 in
      case req of
        ReqOptions \<Rightarrow> (RespNull 204, s)
      | ReqUpgrade clientKey pe pn pc pr \<Rightarrow> handleWebSocket throws clientKey pe pn pc pr s
      | ReqInit meta \<Rightarrow>
          (RespOk, saveSchema (saveMeta (s\<lparr>listMeta := Some meta, schema := list_schema meta\<rparr>)))
      | ReqGetItems \<Rightarrow> (RespItems (schema s) (map snd (items s)), s)
      | ReqPostItem item \<Rightarrow>
          (RespItem item,
           broadcast throws (ItemAdded item) None
             (saveItems (s\<lparr>items := AList.update (item_id item) item (items s)\<rparr>)))
      | ReqPatchItem itemId updates \<Rightarrow>
          (case map_of (items s) itemId of
             None \<Rightarrow> (RespNotFound, s)
           | Some existing \<Rightarrow>
               (let updated = apply_updates existing updates now
                in (RespItem updated,
                    broadcast throws (ItemUpdated updated) None
                      (saveItems (s\<lparr>items := AList.update itemId updated (items s)\<rparr>)))))
      | ReqDeleteItem itemId \<Rightarrow>
          (RespOk,
           broadcast throws (ItemDeleted itemId) None
             (saveItems (s\<lparr>items := AList.delete itemId (items s)\<rparr>)))
      | ReqPatchSchema sch \<Rightarrow>
          (let s1 = s\<lparr>schema := sch\<rparr>;
               s2 = (case listMeta s1 of
                       None \<Rightarrow> s1
                     | Some m \<Rightarrow> saveMeta (s1\<lparr>listMeta := Some (m\<lparr>list_schema := sch\<rparr>)\<rparr>))
           in (RespOk, broadcast throws (SchemaChanged sch) None (saveSchema s2)))
      | ReqClearDone \<Rightarrow>
          (let toDelete = map fst (filter (\<lambda>(i, item). checked item) (items s))
           in (RespCleared (length toDelete), saveItems (clear_loop throws toDelete s)))
      | ReqOther \<Rightarrow> (RespNotFound, s))"

subsection \<open>The socket listeners\<close>

text \<open>What the closures registered by \<open>handleWebSocket\<close> captured.\<close>

record session =
  session_key :: string
  session_role :: role

text \<open>
  The merge of an update into the stored document, as both branches write it: the bytes
  of the update appended to the bytes held.
\<close>

definition merge_update :: "bytes option \<Rightarrow> bytes \<Rightarrow> bytes" where
  "merge_update st update = (case st of Some old \<Rightarrow> old @ update | None \<Rightarrow> update)"

text \<open>The loop of the binary branch that relays the frame to the other clients.\<close>

fun relay_loop ::
  "(string \<Rightarrow> bool) \<Rightarrow> server_msg \<Rightarrow> string \<Rightarrow> (string \<times> ConnectedClient) list \<Rightarrow> ListDO \<Rightarrow> ListDO" where
  "relay_loop throws m clientKey [] s = s"
| "relay_loop throws m clientKey ((key, c) # rest) s =
     (if key = clientKey then relay_loop throws m clientKey rest s
      else (case ws_send throws key m s of
              Some s' \<Rightarrow> relay_loop throws m clientKey rest s'
            | None \<Rightarrow> relay_loop throws m clientKey rest
                        (s\<lparr>clients := AList.delete key (clients s)\<rparr>)))"

text \<open>The reply to a viewer; a throw of this send is caught by the handler's \<open>try\<close>.\<close>

definition reply_view_only :: "(string \<Rightarrow> bool) \<Rightarrow> string \<Rightarrow> ListDO \<Rightarrow> ListDO" where
  "reply_view_only throws key s =
     (case ws_send throws key (ErrorMsg ''View-only access'') s of None \<Rightarrow> s | Some s' \<Rightarrow> s')"

text \<open>\<open>{ ...item.fields, ...msg.fields }\<close>\<close>

definition spread :: "(string \<times> fvalue) list \<Rightarrow> (string \<times> fvalue) list \<Rightarrow> (string \<times> fvalue) list" where
  "spread old new = fold (\<lambda>(k, v). AList.update k v) new old"

definition on_message :: "(string \<Rightarrow> bool) \<Rightarrow> int \<Rightarrow> session \<Rightarrow> ws_data \<Rightarrow> ListDO \<Rightarrow> ListDO" where
  "on_message throws now sess data s =
     (case data of
        Binary update \<Rightarrow>
          if session_role sess = Viewer then s
          else (let s1 = saveYjsDoc (s\<lparr>yjsDocState := Some (merge_update (yjsDocState s) update)\<rparr>)
                in relay_loop throws (BinaryFrame update) (session_key sess) (clients s1) s1)
      | Text MMalformed \<Rightarrow> s
      | Text MOther \<Rightarrow> s
      | Text (MCrdtUpdate d) \<Rightarrow>
          if session_role sess = Viewer then reply_view_only throws (session_key sess) s
          else broadcast throws (CrdtUpdate d) (Some (session_key sess))
                 (saveYjsDoc (s\<lparr>yjsDocState :=
                     Some (merge_update (yjsDocState s) (map word_of_int d))\<rparr>))
      | Text (MItemToggle itemId chk) \<Rightarrow>
          if session_role sess = Viewer then reply_view_only throws (session_key sess) s
          else (case map_of (items s) itemId of
                  None \<Rightarrow> s
                | Some item \<Rightarrow>
                    (let item' = item\<lparr>checked := chk, updatedAt := now\<rparr>
                     in broadcast throws (ItemUpdated item') None
                          (saveItems (s\<lparr>items := AList.update itemId item' (items s)\<rparr>))))
      | Text (MItemUpdateFields itemId fs) \<Rightarrow>
          if session_role sess = Viewer then reply_view_only throws (session_key sess) s
          else (case map_of (items s) itemId of
                  None \<Rightarrow> s
                | Some item \<Rightarrow>
                    (let item' = item\<lparr>item_fields := spread (item_fields item) fs, updatedAt := now\<rparr>
                     in broadcast throws (ItemUpdated item') (Some (session_key sess))
                          (saveItems (s\<lparr>items := AList.update itemId item' (items s)\<rparr>)))))"

text \<open>The \<open>close\<close> and \<open>error\<close> listeners do the same.\<close>

definition on_close :: "(string \<Rightarrow> bool) \<Rightarrow> string \<Rightarrow> ListDO \<Rightarrow> ListDO" where
  "on_close throws key s = broadcastPresence throws (s\<lparr>clients := AList.delete key (clients s)\<rparr>)"

text \<open>A pending timer of \<open>handleWebSocket\<close> fires.\<close>

definition on_timer :: "(string \<Rightarrow> bool) \<Rightarrow> ListDO \<Rightarrow> ListDO" where
  "on_timer throws s =
     (if timers s = 0 then s else broadcastPresence throws (s\<lparr>timers := timers s - 1\<rparr>))"

text \<open>
  The object runs one event at a time. Each event comes with the sockets that throw
  while it is handled and with the clock.
\<close>

datatype do_input =
    Fetch do_request
  | Message session ws_data
  | Close string
  | SocketError string
  | Timer

fun step :: "(string \<Rightarrow> bool) \<times> int \<times> do_input \<Rightarrow> ListDO \<Rightarrow> ListDO" where
  "step (throws, now, Fetch req) s = snd (fetch throws now req s)"
| "step (throws, now, Message sess data) s = on_message throws now sess data s"
| "step (throws, now, Close key) s = on_close throws key s"
| "step (throws, now, SocketError key) s = on_close throws key s"
| "step (throws, now, Timer) s = on_timer throws s"

definition run :: "((string \<Rightarrow> bool) \<times> int \<times> do_input) list \<Rightarrow> ListDO \<Rightarrow> ListDO" where
  "run ins s = fold step ins s"


section \<open>Share management in the worker (worker/src/index.ts, worker/src/auth.ts)\<close>

record JWTPayload =
  jwt_email :: string
  jwt_name :: string
  jwt_color :: string
  jwt_exp :: int
  jwt_iat :: int

text \<open>
  The KV namespace \<open>LISTS_INDEX\<close> holds the list records under \<open>list:<id>\<close> and the
  ids of the lists of a user under \<open>user-lists:<email>\<close>; the values are JSON texts
  that the handlers parse back.
\<close>

record Env =
  ALLOWED_EMAILS :: string
  kv_lists :: "(string \<times> ListMeta) list"
  kv_user_lists :: "(string \<times> string list) list"

text \<open>
  \<open>String.prototype.toLowerCase\<close> and \<open>trim\<close>, on the ASCII letters and the ASCII
  white space; other characters are left as they are.
\<close>

definition lower_char :: "char \<Rightarrow> char" where
  "lower_char c =
     (if 65 \<le> (of_char c :: nat) \<and> (of_char c :: nat) \<le> 90 then char_of ((of_char c :: nat) + 32) else c)"

definition toLowerCase :: "string \<Rightarrow> string" where
  "toLowerCase t = map lower_char t"

definition is_space :: "char \<Rightarrow> bool" where
  "is_space c = ((of_char c :: nat) \<in> {9, 10, 11, 12, 13, 32})"

definition trim :: "string \<Rightarrow> string" where
  "trim t = rev (dropWhile is_space (rev (dropWhile is_space t)))"

text \<open>\<open>allowedEmails.split(',')\<close>\<close>

fun split_comma :: "string \<Rightarrow> string list" where
  "split_comma [] = [[]]"
| "split_comma (c # cs) =
     (if c = CHR '','' then [] # split_comma cs
      else (case split_comma cs of [] \<Rightarrow> [[c]] | w # ws \<Rightarrow> (c # w) # ws))"

definition isAllowedEmail :: "string \<Rightarrow> string \<Rightarrow> bool" where
  "isAllowedEmail e allowedEmails =
     (toLowerCase e \<in> set (map (\<lambda>a. toLowerCase (trim a)) (split_comma allowedEmails)))"

definition getListMeta :: "string \<Rightarrow> Env \<Rightarrow> ListMeta option" where
  "getListMeta listId env = map_of (kv_lists env) listId"

definition getUserRole :: "JWTPayload \<Rightarrow> ListMeta \<Rightarrow> role option" where
  "getUserRole u l =
     (if ownerEmail l = jwt_email u then Some Owner
      else map_option share_role (find (\<lambda>sh. share_email sh = jwt_email u) (shares l)))"

definition addListToUserIndex :: "string \<Rightarrow> string \<Rightarrow> Env \<Rightarrow> Env" where
  "addListToUserIndex e listId env =
     (let ids = (case map_of (kv_user_lists env) e of None \<Rightarrow> [] | Some l \<Rightarrow> l)
      in if listId \<in> set ids then env
         else env\<lparr>kv_user_lists := AList.update e (ids @ [listId]) (kv_user_lists env)\<rparr>)"

definition removeListFromUserIndex :: "string \<Rightarrow> string \<Rightarrow> Env \<Rightarrow> Env" where
  "removeListFromUserIndex e listId env =
     (case map_of (kv_user_lists env) e of
        None \<Rightarrow> env
      | Some ids \<Rightarrow>
          env\<lparr>kv_user_lists := AList.update e (filter (\<lambda>i. i \<noteq> listId) ids) (kv_user_lists env)\<rparr>)"

text \<open>The record \<open>handleCreateList\<close> stores for a new list.\<close>

definition created_meta :: "string \<Rightarrow> string \<Rightarrow> Field list \<Rightarrow> int \<Rightarrow> JWTPayload \<Rightarrow> ListMeta" where
  "created_meta new_id nm sch now u =
     \<lparr>list_id = new_id, list_name = nm, list_schema = sch, createdAt = now,
      ownerEmail = jwt_email u, shares = []\<rparr>"

datatype api_response =
    ApiError nat string
  | ApiShares "Share list"
  | ApiException

definition handleAddShare ::
  "string \<Rightarrow> string \<Rightarrow> role \<Rightarrow> JWTPayload \<Rightarrow> Env \<Rightarrow> api_response \<times> Env" where
  "handleAddShare listId e r u env =
     (case getListMeta listId env of
        None \<Rightarrow> (ApiError 404 ''Not found'', env)
      | Some meta \<Rightarrow>
          if ownerEmail meta \<noteq> jwt_email u then (ApiError 403 ''Forbidden'', env)
          else if \<not> isAllowedEmail e (ALLOWED_EMAILS env)
            then (ApiError 400 ''Email not in allowed list'', env)
          else if toLowerCase e = jwt_email u
            then (ApiError 400 ''Cannot share with yourself'', env)
          else if list_ex (\<lambda>sh. share_email sh = toLowerCase e) (shares meta)
            then (ApiError 400 ''Already shared with this user'', env)
          else (let meta' = meta\<lparr>shares := shares meta @ [\<lparr>share_email = toLowerCase e, share_role = r\<rparr>]\<rparr>;
                    env1 = env\<lparr>kv_lists := AList.update listId meta' (kv_lists env)\<rparr>
                in (ApiShares (shares meta'), addListToUserIndex (toLowerCase e) listId env1)))"

text \<open>\<open>share.role = role\<close> on the first share that \<open>find\<close> returns.\<close>

fun set_first_role :: "string \<Rightarrow> role \<Rightarrow> Share list \<Rightarrow> Share list" where
  "set_first_role e r [] = []"
| "set_first_role e r (sh # shs) =
     (if share_email sh = e then sh\<lparr>share_role := r\<rparr> # shs else sh # set_first_role e r shs)"

text \<open>
  \<open>decodeURIComponent\<close> is a builtin of the runtime: the handlers take it as the
  parameter \<open>decode\<close>, and \<open>None\<close> is its \<open>URIError\<close>.
\<close>

definition handleUpdateShare ::
  "(string \<Rightarrow> string option) \<Rightarrow> string \<Rightarrow> string \<Rightarrow> role \<Rightarrow> JWTPayload \<Rightarrow> Env \<Rightarrow> api_response \<times> Env" where
  "handleUpdateShare decode listId targetEmail r u env =
     (case getListMeta listId env of
        None \<Rightarrow> (ApiError 404 ''Not found'', env)
      | Some meta \<Rightarrow>
          if ownerEmail meta \<noteq> jwt_email u then (ApiError 403 ''Forbidden'', env)
          else (case decode targetEmail of
                  None \<Rightarrow> (ApiException, env)
                | Some d \<Rightarrow>
                    (let decodedEmail = toLowerCase d
                     in case find (\<lambda>sh. share_email sh = decodedEmail) (shares meta) of
                          None \<Rightarrow> (ApiError 404 ''Share not found'', env)
                        | Some share \<Rightarrow>
                            (let meta' = meta\<lparr>shares := set_first_role decodedEmail r (shares meta)\<rparr>
                             in (ApiShares (shares meta'),
                                 env\<lparr>kv_lists := AList.update listId meta' (kv_lists env)\<rparr>)))))"

definition handleRemoveShare ::
  "(string \<Rightarrow> string option) \<Rightarrow> string \<Rightarrow> string \<Rightarrow> JWTPayload \<Rightarrow> Env \<Rightarrow> api_response \<times> Env" where
  "handleRemoveShare decode listId targetEmail u env =
     (case getListMeta listId env of
        None \<Rightarrow> (ApiError 404 ''Not found'', env)
      | Some meta \<Rightarrow>
          if ownerEmail meta \<noteq> jwt_email u then (ApiError 403 ''Forbidden'', env)
          else (case decode targetEmail of
                  None \<Rightarrow> (ApiException, env)
                | Some d \<Rightarrow>
                    (let decodedEmail = toLowerCase d;
                         meta' = meta\<lparr>shares := filter (\<lambda>sh. share_email sh \<noteq> decodedEmail) (shares meta)\<rparr>;
                         env1 = env\<lparr>kv_lists := AList.update listId meta' (kv_lists env)\<rparr>
                     in (ApiShares (shares meta'), removeListFromUserIndex decodedEmail listId env1))))"

text \<open>
  The share routes of the worker's \<open>fetch\<close>: \<open>POST /list/<id>/shares\<close>, and
  \<open>PATCH\<close> and \<open>DELETE\<close> on \<open>/list/<id>/shares/<email>\<close>.
\<close>

datatype share_op =
    AddShare string string role
  | UpdateShare string string role
  | RemoveShare string string

fun share_route ::
  "(string \<Rightarrow> string option) \<Rightarrow> share_op \<Rightarrow> JWTPayload \<Rightarrow> Env \<Rightarrow> api_response \<times> Env" where
  "share_route decode (AddShare listId e r) u env = handleAddShare listId e r u env"
| "share_route decode (UpdateShare listId t r) u env = handleUpdateShare decode listId t r u env"
| "share_route decode (RemoveShare listId t) u env = handleRemoveShare decode listId t u env"

text \<open>
  The invariant of a list record: the owner is not among the shares, and no email
  occurs twice.
\<close>

definition share_inv :: "ListMeta \<Rightarrow> bool" where
  "share_inv m \<longleftrightarrow>
     ownerEmail m \<notin> set (map share_email (shares m)) \<and> distinct (map share_email (shares m))"

definition kv_inv :: "Env \<Rightarrow> bool" where
  "kv_inv env \<longleftrightarrow> list_all (\<lambda>(listId, m). share_inv m) (kv_lists env)"

section \<open>Reading a trace\<close>

text \<open>The messages a trace delivers to one client key, in order.\<close>

fun sends_to :: "string \<Rightarrow> event list \<Rightarrow> server_msg list" where
  "sends_to key [] = []"
| "sends_to key (Send k m # evs) = (if k = key then m # sends_to key evs else sends_to key evs)"
| "sends_to key (e # evs) = sends_to key evs"

text \<open>
  A broadcast message is durable against the stored items and the stored Yjs document
  when the change it announces is in them.
\<close>

fun durable :: "(string \<times> Item) list \<Rightarrow> bytes \<Rightarrow> server_msg \<Rightarrow> bool" where
  "durable si sy (ItemAdded item) = (item \<in> set (map snd si))"
| "durable si sy (ItemUpdated item) = (item \<in> set (map snd si))"
| "durable si sy (ItemDeleted i) = (map_of si i = None)"
| "durable si sy (CrdtUpdate d) = suffix (map word_of_int d) sy"
| "durable si sy (BinaryFrame u) = suffix u sy"
| "durable si sy m = True"

text \<open>
  A trace persists before it broadcasts when every message sent is durable against
  what the writes before it have stored.
\<close>

fun persisted_before_broadcast :: "(string \<times> Item) list \<Rightarrow> bytes \<Rightarrow> event list \<Rightarrow> bool" where
  "persisted_before_broadcast si sy [] = True"
| "persisted_before_broadcast si sy (PutItems al # evs) = persisted_before_broadcast al sy evs"
| "persisted_before_broadcast si sy (PutYjsDoc b # evs) = persisted_before_broadcast si b evs"
| "persisted_before_broadcast si sy (Send k m # evs) =
     (durable si sy m \<and> persisted_before_broadcast si sy evs)"
| "persisted_before_broadcast si sy (e # evs) = persisted_before_broadcast si sy evs"

text \<open>A response reports an error when its status is 400 or more.\<close>

definition reports_error :: "do_response \<Rightarrow> bool" where
  "reports_error r \<longleftrightarrow> status r \<ge> 400"

section \<open>Example values\<close>

definition all_open :: "string \<Rightarrow> bool" where
  "all_open key = False"

definition bob_closed :: "string \<Rightarrow> bool" where
  "bob_closed key = (key = ''bob-2'')"

definition tent :: Item where
  "tent = \<lparr>item_id = ''i1'', item_fields = [(''item'', VText ''Tent''), (''weight'', VNum 2000)],
           checked = False, updatedAt = 1\<rparr>"

definition stove :: Item where
  "stove = \<lparr>item_id = ''i2'', item_fields = [(''item'', VText ''Stove'')],
            checked = True, updatedAt = 2\<rparr>"

definition tent_packed :: Item where
  "tent_packed = tent\<lparr>checked := True, updatedAt := 9\<rparr>"

definition proto_item :: Item where
  "proto_item = \<lparr>item_id = ''__proto__'', item_fields = [(''item'', VText ''Rope'')],
                 checked = False, updatedAt = 8\<rparr>"

definition proto_item_done :: Item where
  "proto_item_done = proto_item\<lparr>checked := True, updatedAt := 9\<rparr>"

definition ann :: ConnectedClient where
  "ann = \<lparr>user = \<lparr>email = ''ann@x.org'', name = ''Ann'', color = ''#EF4444''\<rparr>, role = Owner\<rparr>"

definition bob :: ConnectedClient where
  "bob = \<lparr>user = \<lparr>email = ''bob@x.org'', name = ''Bob'', color = ''#22C55E''\<rparr>, role = Editor\<rparr>"

definition cy :: ConnectedClient where
  "cy = \<lparr>user = \<lparr>email = ''cy@x.org'', name = ''Cy'', color = ''#3B82F6''\<rparr>, role = Viewer\<rparr>"

definition camping :: ListDO where
  "camping =
     \<lparr>clients = [(''ann-1'', ann), (''bob-2'', bob), (''cy-3'', cy)],
      items = [(''i1'', tent), (''i2'', stove)],
      schema = [], listMeta = None, yjsDocState = None, initialized = True,
      storage_items = Some [(''i1'', tent), (''i2'', stove)],
      storage_schema = None, storage_meta = None, storage_yjsDoc = None,
      timers = 0, trace = []\<rparr>"

definition camping_proto :: ListDO where
  "camping_proto = snd (fetch all_open 8 (ReqPostItem proto_item) camping)"

definition mark_done :: ItemUpdates where
  "mark_done = \<lparr>upd_id = None, upd_fields = None, upd_checked = Some True, upd_updatedAt = None\<rparr>"

definition ann_session :: session where
  "ann_session = \<lparr>session_key = ''ann-1'', session_role = Owner\<rparr>"

definition camping_ledger :: ListDO where
  "camping_ledger = camping\<lparr>yjsDocState := Some [1, 2]\<rparr>"

definition bob_session :: session where
  "bob_session = \<lparr>session_key = ''bob-2'', session_role = Editor\<rparr>"

definition cy_session :: session where
  "cy_session = \<lparr>session_key = ''cy-3'', session_role = Viewer\<rparr>"

definition ann_jwt :: JWTPayload where
  "ann_jwt = \<lparr>jwt_email = ''ann@x.org'', jwt_name = ''Ann'', jwt_color = ''#EF4444'',
              jwt_exp = 100, jwt_iat = 0\<rparr>"

definition camping_meta :: ListMeta where
  "camping_meta = created_meta ''L1'' ''Camping'' [] 0 ann_jwt"

definition camping_env :: Env where
  "camping_env =
     \<lparr>ALLOWED_EMAILS = ''ann@x.org, Bob@x.org'',
      kv_lists = [(''L1'', camping_meta)],
      kv_user_lists = [(''ann@x.org'', [''L1''])]\<rparr>"

text \<open>A decoder for targets without escapes, which the builtin returns unchanged.\<close>

definition decode_plain :: "string \<Rightarrow> string option" where
  "decode_plain t = (if CHR ''%'' \<in> set t then None else Some t)"

section \<open>Broadcasting\<close>

lemma broadcast_loop_Cons:
  "broadcast_loop throws m ex ((key, c) # rest) s =
     (if Some key = ex then broadcast_loop throws m ex rest s
      else if throws key
        then broadcast_loop throws m ex rest (s\<lparr>clients := AList.delete key (clients s)\<rparr>)
      else broadcast_loop throws m ex rest (s\<lparr>trace := trace s @ [Send key m]\<rparr>))"
  by (simp add: ws_send_def)

lemma relay_loop_eq: "relay_loop throws m key es s = broadcast_loop throws m (Some key) es s"
  by (induction es arbitrary: s) (auto split: option.splits)

declare broadcast_loop.simps(2) [simp del]

lemma broadcast_loop_trace:
  "trace (broadcast_loop throws m ex es s) =
     trace s @ map (\<lambda>(k, c). Send k m) (filter (\<lambda>(k, c). Some k \<noteq> ex \<and> \<not> throws k) es)"
proof (induction es arbitrary: s)
  case Nil
  then show ?case by simp
next
  case (Cons e es)
  obtain key client where e: "e = (key, client)" by (cases e)
  show ?case
    unfolding e broadcast_loop_Cons
    by (simp add: Cons.IH)
qed

lemma broadcast_loop_clients:
  "clients (broadcast_loop throws m ex es s) =
     filter (\<lambda>(k, c). \<not> (k \<in> fst ` set es \<and> Some k \<noteq> ex \<and> throws k)) (clients s)"
proof (induction es arbitrary: s)
  case Nil
  then show ?case by simp
next
  case (Cons e es)
  obtain key client where e: "e = (key, client)" by (cases e)
  have del: "AList.delete key (clients s) = filter (\<lambda>(k, c). k \<noteq> key) (clients s)"
    by (auto simp: AList.delete_eq intro!: filter_cong)
  show ?case
    unfolding e
    by (auto simp: broadcast_loop_Cons Cons.IH del intro!: filter_cong)
qed

lemma broadcast_loop_frame:
  "items (broadcast_loop throws m ex es s) = items s"
  "schema (broadcast_loop throws m ex es s) = schema s"
  "listMeta (broadcast_loop throws m ex es s) = listMeta s"
  "yjsDocState (broadcast_loop throws m ex es s) = yjsDocState s"
  "initialized (broadcast_loop throws m ex es s) = initialized s"
  "storage_items (broadcast_loop throws m ex es s) = storage_items s"
  "storage_schema (broadcast_loop throws m ex es s) = storage_schema s"
  "storage_meta (broadcast_loop throws m ex es s) = storage_meta s"
  "storage_yjsDoc (broadcast_loop throws m ex es s) = storage_yjsDoc s"
  "timers (broadcast_loop throws m ex es s) = timers s"
  by (induction es arbitrary: s; simp add: broadcast_loop_Cons split_paired_all)+

lemma broadcast_clients:
  "clients (broadcast throws m ex s) = filter (\<lambda>(k, c). Some k = ex \<or> \<not> throws k) (clients s)"
  unfolding broadcast_def broadcast_loop_clients
  by (rule filter_cong) force+

lemma broadcast_trace:
  "trace (broadcast throws m ex s) =
     trace s @ map (\<lambda>(k, c). Send k m) (filter (\<lambda>(k, c). Some k \<noteq> ex \<and> \<not> throws k) (clients s))"
  by (simp add: broadcast_def broadcast_loop_trace)

lemma broadcast_frame:
  "items (broadcast throws m ex s) = items s"
  "schema (broadcast throws m ex s) = schema s"
  "listMeta (broadcast throws m ex s) = listMeta s"
  "yjsDocState (broadcast throws m ex s) = yjsDocState s"
  "initialized (broadcast throws m ex s) = initialized s"
  "storage_items (broadcast throws m ex s) = storage_items s"
  "storage_schema (broadcast throws m ex s) = storage_schema s"
  "storage_meta (broadcast throws m ex s) = storage_meta s"
  "storage_yjsDoc (broadcast throws m ex s) = storage_yjsDoc s"
  "timers (broadcast throws m ex s) = timers s"
  by (simp_all add: broadcast_def broadcast_loop_frame)

text \<open>
  C8. A broadcast removes from the registry exactly the clients whose send throws (the
  excluded key is not tried), and delivers the message, in registry order, to every
  other client that is not excluded: a throwing socket does not stop the loop. The relay
  loop of the binary branch is the same loop with the sender excluded.
\<close>

theorem broadcast_prunes_failed_and_reaches_rest:
  "clients (broadcast throws m ex s) = filter (\<lambda>(k, c). Some k = ex \<or> \<not> throws k) (clients s)
   \<and> trace (broadcast throws m ex s) =
       trace s @ map (\<lambda>(k, c). Send k m) (filter (\<lambda>(k, c). Some k \<noteq> ex \<and> \<not> throws k) (clients s))
   \<and> relay_loop throws m key (clients s) s = broadcast throws m (Some key) s"
proof -
  have "relay_loop throws m key (clients s) s = broadcast throws m (Some key) s"
    by (simp add: relay_loop_eq broadcast_def)
  then show ?thesis
    by (simp add: broadcast_clients broadcast_trace)
qed

theorem broadcast_prunes_failed_and_reaches_rest_witness:
  "clients (broadcast bob_closed (ItemDeleted ''i1'') None camping) = [(''ann-1'', ann), (''cy-3'', cy)]
   \<and> trace (broadcast bob_closed (ItemDeleted ''i1'') None camping) =
       [Send ''ann-1'' (ItemDeleted ''i1''), Send ''cy-3'' (ItemDeleted ''i1'')]
   \<and> clients (relay_loop bob_closed (BinaryFrame [2]) ''ann-1'' (clients camping) camping) =
       [(''ann-1'', ann), (''cy-3'', cy)]
   \<and> trace (relay_loop bob_closed (BinaryFrame [2]) ''ann-1'' (clients camping) camping) =
       [Send ''cy-3'' (BinaryFrame [2])]"
  using broadcast_prunes_failed_and_reaches_rest [of bob_closed "ItemDeleted ''i1''" None camping "''ann-1''"]
    broadcast_prunes_failed_and_reaches_rest [of bob_closed "BinaryFrame [2]" "Some ''ann-1''" camping "''ann-1''"]
  by (simp add: camping_def bob_closed_def)

section \<open>Frames of the helpers\<close>

lemma initialize_frame:
  "clients (initialize s) = clients s"
  "trace (initialize s) = trace s"
  "timers (initialize s) = timers s"
  "storage_items (initialize s) = storage_items s"
  "storage_yjsDoc (initialize s) = storage_yjsDoc s"
  "initialized (initialize s)"
  by (simp_all add: initialize_def)

lemma initialize_idle: "initialized s \<Longrightarrow> initialize s = s"
  by (simp add: initialize_def)

lemma spread_map_of: "map_of (spread old new) = map_of old ++ map_of (rev new)"
  unfolding spread_def
proof (induction new arbitrary: old)
  case Nil
  then show ?case by simp
next
  case (Cons e new)
  obtain k v where e: "e = (k, v)" by (cases e)
  show ?case
    by (simp add: e Cons.IH update_conv' map_add_def fun_eq_iff split: option.splits)
qed

lemma map_of_rev_distinct: "distinct (map fst xs) \<Longrightarrow> map_of (rev xs) = map_of xs"
  by (subst map_of_inject_set) (simp_all add: rev_map [symmetric])

lemma spread_untouched: "k \<notin> fst ` set new \<Longrightarrow> map_of (spread old new) k = map_of old k"
proof -
  assume "k \<notin> fst ` set new"
  then have "map_of (rev new) k = None"
    by (simp add: map_of_eq_None_iff)
  then show ?thesis
    by (simp add: spread_map_of map_add_def)
qed

lemma update_keys_present:
  "map_of al k = Some v \<Longrightarrow> map fst (AList.update k w al) = map fst al"
  by (simp add: update_keys) (metis domI dom_map_of_conv_image_fst set_map)

text \<open>What the record that \<open>saveItems\<close> writes holds under a key.\<close>

lemma set_own_entries: "set (own_entries obj) = set obj"
  by (auto simp: own_entries_def)

lemma distinct_own_entries:
  "distinct (map fst obj) \<Longrightarrow> distinct (map fst (own_entries obj))"
  by (auto simp: own_entries_def distinct_map inj_on_def)

lemma map_of_own_entries:
  "distinct (map fst obj) \<Longrightarrow> map_of (own_entries obj) = map_of obj"
  by (subst map_of_inject_set) (simp_all add: distinct_own_entries set_own_entries)

lemma fold_obj_set_distinct:
  "distinct (map fst acc) \<Longrightarrow> distinct (map fst (fold (\<lambda>(i, item). obj_set i item) al acc))"
  by (induction al arbitrary: acc) (auto simp: obj_set_def distinct_update)

lemma fold_obj_set_lookup:
  "map_of (fold (\<lambda>(i, item). obj_set i item) al acc) k =
     (if k = ''__proto__'' then map_of acc k else (map_of acc ++ map_of (rev al)) k)"
proof (induction al arbitrary: acc)
  case Nil
  then show ?case by simp
next
  case (Cons e al)
  obtain i item where e: "e = (i, item)" by (cases e)
  have "map_of (fold (\<lambda>(i, item). obj_set i item) (e # al) acc) k =
      map_of (fold (\<lambda>(i, item). obj_set i item) al (obj_set i item acc)) k"
    by (simp add: e)
  also have "\<dots> = (if k = ''__proto__'' then map_of (obj_set i item acc) k
      else (map_of (obj_set i item acc) ++ map_of (rev al)) k)"
    by (rule Cons.IH)
  also have "\<dots> = (if k = ''__proto__'' then map_of acc k else (map_of acc ++ map_of (rev (e # al))) k)"
    by (simp add: e obj_set_def update_conv' map_add_def split: option.splits)
  finally show ?case .
qed

lemma to_record_lookup_rev:
  "map_of (to_record al) k = (if k = ''__proto__'' then None else map_of (rev al) k)"
  by (simp add: to_record_def map_of_own_entries fold_obj_set_distinct fold_obj_set_lookup)

lemma to_record_lookup:
  "distinct (map fst al) \<Longrightarrow>
     map_of (to_record al) k = (if k = ''__proto__'' then None else map_of al k)"
  by (simp add: to_record_lookup_rev map_of_rev_distinct)

lemma to_record_absent: "k \<notin> fst ` set al \<Longrightarrow> map_of (to_record al) k = None"
  by (simp add: to_record_lookup_rev map_of_eq_None_iff)

lemma to_record_stores_update:
  assumes "distinct (map fst al)" and "k \<noteq> ''__proto__''"
  shows "v \<in> snd ` set (to_record (AList.update k v al))"
proof -
  have "map_of (to_record (AList.update k v al)) k = Some v"
    using assms by (simp add: to_record_lookup distinct_update update_conv')
  then have "(k, v) \<in> set (to_record (AList.update k v al))"
    by (rule map_of_SomeD)
  then show ?thesis
    by (force simp: image_iff)
qed


lemma saveItems_frame:
  "items (saveItems s) = items s"
  "clients (saveItems s) = clients s"
  "yjsDocState (saveItems s) = yjsDocState s"
  "storage_yjsDoc (saveItems s) = storage_yjsDoc s"
  "timers (saveItems s) = timers s"
  by (simp_all add: saveItems_def)

lemma fetch_PostItem:
  "fetch throws now (ReqPostItem item) s =
     (RespItem item,
      broadcast throws (ItemAdded item) None
        (saveItems ((initialize s)\<lparr>items := AList.update (item_id item) item (items (initialize s))\<rparr>)))"
  by (simp add: fetch_def Let_def)

lemma fetch_PatchItem:
  "fetch throws now (ReqPatchItem itemId updates) s =
     (case map_of (items (initialize s)) itemId of
        None \<Rightarrow> (RespNotFound, initialize s)
      | Some existing \<Rightarrow>
          (RespItem (apply_updates existing updates now),
           broadcast throws (ItemUpdated (apply_updates existing updates now)) None
             (saveItems ((initialize s)\<lparr>items :=
                AList.update itemId (apply_updates existing updates now) (items (initialize s))\<rparr>))))"
  by (simp add: fetch_def Let_def split: option.splits)

lemma fetch_DeleteItem:
  "fetch throws now (ReqDeleteItem itemId) s =
     (RespOk,
      broadcast throws (ItemDeleted itemId) None
        (saveItems ((initialize s)\<lparr>items := AList.delete itemId (items (initialize s))\<rparr>)))"
  by (simp add: fetch_def Let_def)

lemma fetch_ClearDone:
  "fetch throws now ReqClearDone s =
     (RespCleared (length (filter (\<lambda>(i, item). checked item) (items (initialize s)))),
      saveItems (clear_loop throws
        (map fst (filter (\<lambda>(i, item). checked item) (items (initialize s)))) (initialize s)))"
  by (simp add: fetch_def Let_def)

section \<open>Adding an item\<close>

text \<open>
  \<open>POST /item\<close> with an item whose id is already in the store answers with the
  item and status 200, replaces the item under that id in the store and leaves the ids
  of the store as they were (no second entry), puts the record of the store, and then
  sends \<open>item-added\<close> to every client whose socket accepts it. When the id is not
  \<open>__proto__\<close>, the record put holds the item under its id.
\<close>

lemma post_item_upsert:
  assumes "map_of (items (initialize s)) (item_id item) = Some old"
    and "fetch throws now (ReqPostItem item) s = (resp, s')"
  shows "resp = RespItem item \<and> status resp = 200
    \<and> map_of (items s') = (map_of (items (initialize s)))(item_id item \<mapsto> item)
    \<and> map fst (items s') = map fst (items (initialize s))
    \<and> storage_items s' = Some (to_record (items s'))
    \<and> trace s' = trace s @ PutItems (to_record (items s'))
         # map (\<lambda>(k, c). Send k (ItemAdded item)) (filter (\<lambda>(k, c). \<not> throws k) (clients s))
    \<and> (distinct (map fst (items (initialize s))) \<longrightarrow> item_id item \<noteq> ''__proto__'' \<longrightarrow>
          map_of (to_record (items s')) (item_id item) = Some item)"
proof -
  let ?s1 = "(initialize s)\<lparr>items := AList.update (item_id item) item (items (initialize s))\<rparr>"
  have r: "resp = RespItem item" and s': "s' = broadcast throws (ItemAdded item) None (saveItems ?s1)"
    using assms(2) by (simp_all add: fetch_PostItem)
  have keys: "map fst (AList.update (item_id item) item (items (initialize s))) = map fst (items (initialize s))"
    using assms(1) by (rule update_keys_present)
  have its: "items s' = AList.update (item_id item) item (items (initialize s))"
    by (simp add: s' broadcast_frame saveItems_def)
  have stored: "distinct (map fst (items (initialize s))) \<longrightarrow> item_id item \<noteq> ''__proto__'' \<longrightarrow>
      map_of (to_record (items s')) (item_id item) = Some item"
    by (simp add: its to_record_lookup distinct_update update_conv')
  have "resp = RespItem item \<and> status resp = 200
    \<and> map_of (items s') = (map_of (items (initialize s)))(item_id item \<mapsto> item)
    \<and> map fst (items s') = map fst (items (initialize s))
    \<and> storage_items s' = Some (to_record (items s'))
    \<and> trace s' = trace s @ PutItems (to_record (items s'))
         # map (\<lambda>(k, c). Send k (ItemAdded item)) (filter (\<lambda>(k, c). \<not> throws k) (clients s))"
    by (simp add: r s' broadcast_frame broadcast_trace saveItems_def update_conv' keys initialize_frame)
  then show ?thesis
    using stored by blast
qed

text \<open>
  C9 at a concrete input: an item whose id is \<open>__proto__\<close> is in the store (an earlier
  \<open>POST /item\<close> put it there) and is added again, checked. The request answers with
  the item, replaces it in the store and broadcasts \<open>item-added\<close>, but the record it
  puts to storage has no entry for it: the store is not persisted.
\<close>

theorem post_item_proto_key_is_not_persisted:
  "map_of (items camping_proto) (item_id proto_item_done) = Some proto_item
   \<and> fst (fetch all_open 9 (ReqPostItem proto_item_done) camping_proto) = RespItem proto_item_done
   \<and> items (snd (fetch all_open 9 (ReqPostItem proto_item_done) camping_proto)) =
       [(''i1'', tent), (''i2'', stove), (''__proto__'', proto_item_done)]
   \<and> storage_items (snd (fetch all_open 9 (ReqPostItem proto_item_done) camping_proto)) =
       Some [(''i1'', tent), (''i2'', stove)]
   \<and> trace (snd (fetch all_open 9 (ReqPostItem proto_item_done) camping_proto)) =
       trace camping_proto @
       [PutItems [(''i1'', tent), (''i2'', stove)],
        Send ''ann-1'' (ItemAdded proto_item_done), Send ''bob-2'' (ItemAdded proto_item_done),
        Send ''cy-3'' (ItemAdded proto_item_done)]"
  by (simp add: camping_proto_def fetch_PostItem initialize_def camping_def broadcast_frame
      broadcast_trace broadcast_clients saveItems_def to_record_def own_entries_def obj_set_def array_index_def
      is_digit_def all_open_def proto_item_done_def proto_item_def)

section \<open>Updating the fields of an item\<close>

lemma on_message_UpdateFields:
  assumes "session_role sess \<noteq> Viewer" and "map_of (items s) itemId = Some item"
  shows "on_message throws now sess (Text (MItemUpdateFields itemId fs)) s =
     broadcast throws
       (ItemUpdated (item\<lparr>item_fields := spread (item_fields item) fs, updatedAt := now\<rparr>))
       (Some (session_key sess))
       (saveItems (s\<lparr>items := AList.update itemId
          (item\<lparr>item_fields := spread (item_fields item) fs, updatedAt := now\<rparr>) (items s)\<rparr>))"
  using assms by (simp add: on_message_def Let_def)

text \<open>
  C10. An \<open>item-update-fields\<close> intent of a session that is not a viewer, on an item
  of the store: the item's fields become the old fields overridden by the entries of
  the message (a key the message does not name keeps its entry), \<open>updatedAt\<close> becomes
  the clock, \<open>checked\<close> and the id stay, every other item stays, and the ids of the
  store and their order stay.
\<close>

theorem update_fields_changes_only_named_fields:
  assumes "session_role sess \<noteq> Viewer" and "map_of (items s) itemId = Some item"
    and "on_message throws now sess (Text (MItemUpdateFields itemId fs)) s = s'"
  shows "\<exists>item'. map_of (items s') itemId = Some item'
     \<and> map_of (item_fields item') = map_of (item_fields item) ++ map_of (rev fs)
     \<and> (distinct (map fst fs) \<longrightarrow>
           map_of (item_fields item') = map_of (item_fields item) ++ map_of fs)
     \<and> (\<forall>k. k \<notin> fst ` set fs \<longrightarrow> map_of (item_fields item') k = map_of (item_fields item) k)
     \<and> updatedAt item' = now \<and> checked item' = checked item \<and> item_id item' = item_id item
     \<and> (\<forall>j. j \<noteq> itemId \<longrightarrow> map_of (items s') j = map_of (items s) j)
     \<and> map fst (items s') = map fst (items s)"
proof -
  let ?item' = "item\<lparr>item_fields := spread (item_fields item) fs, updatedAt := now\<rparr>"
  have s': "s' = broadcast throws (ItemUpdated ?item') (Some (session_key sess))
      (saveItems (s\<lparr>items := AList.update itemId ?item' (items s)\<rparr>))"
    using on_message_UpdateFields [OF assms(1,2)] assms(3) by simp
  have its: "items s' = AList.update itemId ?item' (items s)"
    by (simp add: s' broadcast_frame saveItems_def)
  have keys: "map fst (items s') = map fst (items s)"
    unfolding its using assms(2) by (rule update_keys_present)
  have "map_of (items s') itemId = Some ?item'"
    by (simp add: its update_conv')
  moreover have "\<forall>j. j \<noteq> itemId \<longrightarrow> map_of (items s') j = map_of (items s) j"
    by (simp add: its update_conv')
  moreover have "\<forall>k. k \<notin> fst ` set fs \<longrightarrow> map_of (item_fields ?item') k = map_of (item_fields item) k"
    by (simp add: spread_untouched)
  ultimately show ?thesis
    using keys by (intro exI [of _ ?item']) (simp add: spread_map_of map_of_rev_distinct)
qed

theorem update_fields_changes_only_named_fields_witness:
  "session_role bob_session \<noteq> Viewer \<and> map_of (items camping) ''i1'' = Some tent
   \<and> (\<exists>item'. map_of (items (on_message all_open 9 bob_session
          (Text (MItemUpdateFields ''i1'' [(''weight'', VNum 1800)])) camping)) ''i1'' = Some item'
        \<and> map_of (item_fields item') ''item'' = Some (VText ''Tent'')
        \<and> map_of (item_fields item') ''weight'' = Some (VNum 1800)
        \<and> updatedAt item' = 9 \<and> checked item' = False \<and> item_id item' = ''i1'')
   \<and> map_of (items (on_message all_open 9 bob_session
          (Text (MItemUpdateFields ''i1'' [(''weight'', VNum 1800)])) camping)) ''i2'' = Some stove"
proof -
  have h1: "session_role bob_session \<noteq> Viewer"
    by (simp add: bob_session_def)
  have h2: "map_of (items camping) ''i1'' = Some tent"
    by (simp add: camping_def)
  from update_fields_changes_only_named_fields [OF h1 h2 refl, of all_open 9 "[(''weight'', VNum 1800)]"]
  obtain item' where
    "map_of (items (on_message all_open 9 bob_session
          (Text (MItemUpdateFields ''i1'' [(''weight'', VNum 1800)])) camping)) ''i1'' = Some item'"
    "map_of (item_fields item') = map_of (item_fields tent) ++ map_of (rev [(''weight'', VNum 1800)])"
    "updatedAt item' = 9" "checked item' = checked tent" "item_id item' = item_id tent"
    "\<forall>j. j \<noteq> ''i1'' \<longrightarrow> map_of (items (on_message all_open 9 bob_session
          (Text (MItemUpdateFields ''i1'' [(''weight'', VNum 1800)])) camping)) j = map_of (items camping) j"
    by blast
  then show ?thesis
    using h1 h2 by (simp add: tent_def camping_def)
qed

section \<open>Operations on an unknown item\<close>

text \<open>
  C6, as the code has it. Of the operations that name an item the store does not have:
  the \<open>item-toggle\<close> and \<open>item-update-fields\<close> intents of a session that may
  mutate change nothing and send nothing; \<open>DELETE /item/<id>\<close> answers ok and leaves
  the items as they were; \<open>PATCH /item/<id>\<close> leaves the object as it was and answers
  \<open>Not found\<close> with status 404.
\<close>

theorem unknown_item_soft_fail_except_patch:
  assumes "map_of (items s) itemId = None"
  shows "(session_role sess \<noteq> Viewer \<longrightarrow>
            on_message throws now sess (Text (MItemToggle itemId chk)) s = s)
     \<and> (session_role sess \<noteq> Viewer \<longrightarrow>
            on_message throws now sess (Text (MItemUpdateFields itemId fs)) s = s)
     \<and> (initialized s \<longrightarrow>
            fst (fetch throws now (ReqDeleteItem itemId) s) = RespOk
          \<and> items (snd (fetch throws now (ReqDeleteItem itemId) s)) = items s)
     \<and> (initialized s \<longrightarrow>
            fetch throws now (ReqPatchItem itemId updates) s = (RespNotFound, s)
          \<and> status RespNotFound = 404)"
proof -
  have absent: "itemId \<notin> fst ` set (items s)"
    using assms by (simp add: map_of_eq_None_iff)
  have "session_role sess \<noteq> Viewer \<longrightarrow>
      on_message throws now sess (Text (MItemToggle itemId chk)) s = s"
    using assms by (simp add: on_message_def)
  moreover have "session_role sess \<noteq> Viewer \<longrightarrow>
      on_message throws now sess (Text (MItemUpdateFields itemId fs)) s = s"
    using assms by (simp add: on_message_def)
  moreover have "initialized s \<longrightarrow>
      fst (fetch throws now (ReqDeleteItem itemId) s) = RespOk
      \<and> items (snd (fetch throws now (ReqDeleteItem itemId) s)) = items s"
    using absent by (simp add: fetch_DeleteItem initialize_idle broadcast_frame saveItems_def)
  moreover have "initialized s \<longrightarrow>
      fetch throws now (ReqPatchItem itemId updates) s = (RespNotFound, s) \<and> status RespNotFound = 404"
    using assms by (simp add: fetch_PatchItem initialize_idle)
  ultimately show ?thesis by blast
qed

theorem unknown_item_soft_fail_except_patch_witness:
  "map_of (items camping) ''zz'' = None \<and> session_role bob_session \<noteq> Viewer \<and> initialized camping
   \<and> on_message all_open 9 bob_session (Text (MItemToggle ''zz'' True)) camping = camping
   \<and> on_message all_open 9 bob_session (Text (MItemUpdateFields ''zz'' [(''item'', VText ''Axe'')])) camping = camping
   \<and> fst (fetch all_open 9 (ReqDeleteItem ''zz'') camping) = RespOk
   \<and> items (snd (fetch all_open 9 (ReqDeleteItem ''zz'') camping)) = items camping
   \<and> fetch all_open 9 (ReqPatchItem ''zz'' mark_done) camping = (RespNotFound, camping)"
proof -
  have h1: "map_of (items camping) ''zz'' = None"
    by (simp add: camping_def)
  have h2: "session_role bob_session \<noteq> Viewer"
    by (simp add: bob_session_def)
  have h3: "initialized camping"
    by (simp add: camping_def)
  from unknown_item_soft_fail_except_patch [OF h1, of bob_session all_open 9 True
      "[(''item'', VText ''Axe'')]" mark_done] h1 h2 h3
  show ?thesis by simp
qed

theorem patch_unknown_item_reports_error:
  "map_of (items camping) ''zz'' = None
   \<and> fst (fetch all_open 9 (ReqPatchItem ''zz'' mark_done) camping) = RespNotFound
   \<and> reports_error (fst (fetch all_open 9 (ReqPatchItem ''zz'' mark_done) camping))"
  by (simp add: fetch_PatchItem initialize_def camping_def reports_error_def)

section \<open>Mutation attempts of a viewer\<close>

text \<open>
  C3, as the code has it. A session whose role is viewer: a binary frame is dropped, the
  object stays as it was and nothing is sent, not even a reply; a \<open>crdt-update\<close>,
  \<open>item-toggle\<close> or \<open>item-update-fields\<close> intent leaves the object as it was but
  for one \<open>View-only access\<close> error sent to the sender, and nothing at all when the
  sender's socket throws.
\<close>

theorem viewer_mutation_rejected:
  assumes "session_role sess = Viewer"
    and "m \<in> {MCrdtUpdate d, MItemToggle itemId chk, MItemUpdateFields itemId fs}"
  shows "on_message throws now sess (Binary u) s = s
     \<and> on_message throws now sess (Text m) s =
         (if throws (session_key sess) then s
          else s\<lparr>trace := trace s @ [Send (session_key sess) (ErrorMsg ''View-only access'')]\<rparr>)"
  using assms by (auto simp: on_message_def reply_view_only_def ws_send_def)

theorem viewer_mutation_rejected_witness:
  "session_role cy_session = Viewer
   \<and> on_message all_open 9 cy_session (Binary [2]) camping = camping
   \<and> on_message all_open 9 cy_session (Text (MItemToggle ''i1'' True)) camping =
       camping\<lparr>trace := [Send ''cy-3'' (ErrorMsg ''View-only access'')]\<rparr>"
proof -
  have h1: "session_role cy_session = Viewer"
    by (simp add: cy_session_def)
  have h2: "MItemToggle ''i1'' True \<in> {MCrdtUpdate [], MItemToggle ''i1'' True, MItemUpdateFields ''i1'' []}"
    by simp
  from viewer_mutation_rejected [OF h1 h2, of all_open 9 "[2]" camping] h1
  show ?thesis by (simp add: all_open_def cy_session_def camping_def)
qed

theorem viewer_binary_frame_gets_no_reply:
  "session_role cy_session = Viewer
   \<and> sends_to (session_key cy_session) (trace (on_message all_open 9 cy_session (Binary [2]) camping)) = []"
  by (simp add: on_message_def cy_session_def camping_def)

section \<open>Merging ledger updates\<close>

text \<open>
  C1 at a concrete input: two editors send one update each. The document the object
  holds afterwards depends on the order of arrival.
\<close>

theorem ledger_merge_depends_on_order:
  "yjsDocState (on_message all_open 9 bob_session (Binary [2])
       (on_message all_open 8 ann_session (Binary [1]) camping)) = Some [1, 2]
   \<and> yjsDocState (on_message all_open 9 ann_session (Binary [1])
       (on_message all_open 8 bob_session (Binary [2]) camping)) = Some [2, 1]
   \<and> yjsDocState (on_message all_open 9 bob_session (Text (MCrdtUpdate [2]))
       (on_message all_open 8 ann_session (Text (MCrdtUpdate [1])) camping)) = Some [1, 2]
   \<and> yjsDocState (on_message all_open 9 ann_session (Text (MCrdtUpdate [1]))
       (on_message all_open 8 bob_session (Text (MCrdtUpdate [2])) camping)) = Some [2, 1]"
  by (simp add: on_message_def relay_loop_eq broadcast_loop_frame broadcast_frame saveYjsDoc_def
      merge_update_def ann_session_def bob_session_def camping_def)

section \<open>Echo to the originator\<close>

text \<open>
  C4 at a concrete input: an editor toggles an item. The \<open>item-updated\<close> broadcast
  goes to the editor's own socket too.
\<close>

theorem toggle_is_echoed_to_sender:
  "sends_to (session_key bob_session)
     (trace (on_message all_open 9 bob_session (Text (MItemToggle ''i1'' True)) camping)) =
     [ItemUpdated tent_packed]
   \<and> sends_to (session_key bob_session)
     (trace (on_message all_open 9 bob_session
        (Text (MItemUpdateFields ''i1'' [(''weight'', VNum 1800)])) camping)) = []"
  by (simp add: on_message_def Let_def broadcast_trace saveItems_def bob_session_def camping_def
      all_open_def tent_packed_def tent_def)


section \<open>Persisting before broadcasting\<close>

lemma persisted_sends:
  "durable si sy m \<Longrightarrow> persisted_before_broadcast si sy (map (\<lambda>(k, c). Send k m) xs)"
  by (induction xs) auto

text \<open>
  The routes and intents that write first: the events of adding, patching and deleting
  an item, of a toggle, of a field update and of a ledger update in either encoding
  persist before they broadcast, whatever was stored before. For an item this is for a
  store without repeated keys and for an id other than \<open>__proto__\<close>, which the record
  written does not hold.
\<close>

lemma fetch_mutations_persist_first:
  assumes "distinct (map fst (items (initialize s)))"
  shows "item_id item \<noteq> ''__proto__'' \<Longrightarrow> persisted_before_broadcast si sy
           (drop (length (trace s)) (trace (snd (fetch throws now (ReqPostItem item) s))))"
    and "itemId \<noteq> ''__proto__'' \<Longrightarrow> persisted_before_broadcast si sy
           (drop (length (trace s)) (trace (snd (fetch throws now (ReqPatchItem itemId updates) s))))"
    and "persisted_before_broadcast si sy
           (drop (length (trace s)) (trace (snd (fetch throws now (ReqDeleteItem itemId) s))))"
proof -
  show "item_id item \<noteq> ''__proto__'' \<Longrightarrow> persisted_before_broadcast si sy
      (drop (length (trace s)) (trace (snd (fetch throws now (ReqPostItem item) s))))"
    using assms
    by (simp add: fetch_PostItem broadcast_trace saveItems_def initialize_frame
        persisted_sends to_record_stores_update)
  show "itemId \<noteq> ''__proto__'' \<Longrightarrow> persisted_before_broadcast si sy
      (drop (length (trace s)) (trace (snd (fetch throws now (ReqPatchItem itemId updates) s))))"
    using assms
    by (simp add: fetch_PatchItem broadcast_trace saveItems_def initialize_frame
        persisted_sends to_record_stores_update split: option.splits)
  show "persisted_before_broadcast si sy
      (drop (length (trace s)) (trace (snd (fetch throws now (ReqDeleteItem itemId) s))))"
    by (simp add: fetch_DeleteItem broadcast_trace saveItems_def initialize_frame
        persisted_sends to_record_absent delete_notin_dom)
qed

lemma message_mutations_persist_first:
  assumes "distinct (map fst (items s))" and "itemId \<noteq> ''__proto__''"
  shows "persisted_before_broadcast si sy
           (drop (length (trace s)) (trace (on_message throws now sess (Text (MItemToggle itemId chk)) s)))"
    and "persisted_before_broadcast si sy
           (drop (length (trace s)) (trace (on_message throws now sess (Text (MItemUpdateFields itemId fs)) s)))"
proof -
  show "persisted_before_broadcast si sy
      (drop (length (trace s)) (trace (on_message throws now sess (Text (MItemToggle itemId chk)) s)))"
    using assms
    by (simp add: reply_view_only_def ws_send_def on_message_def Let_def broadcast_trace saveItems_def
        persisted_sends to_record_stores_update split: option.splits)
  show "persisted_before_broadcast si sy
      (drop (length (trace s)) (trace (on_message throws now sess (Text (MItemUpdateFields itemId fs)) s)))"
    using assms
    by (simp add: reply_view_only_def ws_send_def on_message_def Let_def broadcast_trace saveItems_def
        persisted_sends to_record_stores_update split: option.splits)
qed

lemma ledger_updates_persist_first:
  shows "persisted_before_broadcast si sy
           (drop (length (trace s)) (trace (on_message throws now sess (Text (MCrdtUpdate d)) s)))"
    and "persisted_before_broadcast si sy
           (drop (length (trace s)) (trace (on_message throws now sess (Binary u) s)))"
proof -
  show "persisted_before_broadcast si sy
      (drop (length (trace s)) (trace (on_message throws now sess (Text (MCrdtUpdate d)) s)))"
    by (simp add: reply_view_only_def ws_send_def on_message_def broadcast_trace saveYjsDoc_def merge_update_def
        persisted_sends suffix_def split: option.splits)
  show "persisted_before_broadcast si sy
      (drop (length (trace s)) (trace (on_message throws now sess (Binary u) s)))"
    by (simp add: reply_view_only_def ws_send_def on_message_def Let_def relay_loop_eq broadcast_loop_trace saveYjsDoc_def
        merge_update_def persisted_sends suffix_def split: option.splits)
qed

text \<open>
  C2 at a concrete input: \<open>POST /clear-done\<close> on a list with one checked item and
  three clients. The three \<open>item-deleted\<close> messages are sent while storage still
  holds the item; the write comes last.
\<close>

theorem clear_done_broadcasts_before_persisting:
  "storage_items camping = Some [(''i1'', tent), (''i2'', stove)]
   \<and> trace (snd (fetch all_open 9 ReqClearDone camping)) =
       [Send ''ann-1'' (ItemDeleted ''i2''), Send ''bob-2'' (ItemDeleted ''i2''),
        Send ''cy-3'' (ItemDeleted ''i2''), PutItems [(''i1'', tent)]]
   \<and> \<not> persisted_before_broadcast [(''i1'', tent), (''i2'', stove)] []
         (trace (snd (fetch all_open 9 ReqClearDone camping)))"
proof -
  have t: "trace (snd (fetch all_open 9 ReqClearDone camping)) =
       [Send ''ann-1'' (ItemDeleted ''i2''), Send ''bob-2'' (ItemDeleted ''i2''),
        Send ''cy-3'' (ItemDeleted ''i2''), PutItems [(''i1'', tent)]]"
    by (simp add: fetch_ClearDone initialize_def camping_def tent_def stove_def saveItems_def
        to_record_def own_entries_def obj_set_def array_index_def is_digit_def
        broadcast_trace broadcast_frame all_open_def)
  show ?thesis
    unfolding t by (simp add: camping_def)
qed

section \<open>The snapshot on connect\<close>

lemma handleWebSocket_accepted:
  assumes "handleWebSocket throws key pe pn pc pr s = (RespNull 101, s')"
  shows "trace s' = trace s @ Send key (ItemsChanged (map snd (items s)))
           # (case yjsDocState s of
                None \<Rightarrow> []
              | Some b \<Rightarrow> if b = [] then [] else [Send key (CrdtSync b)])"
    and "timers s' = Suc (timers s)"
  using assms
  by (auto simp: handleWebSocket_def Let_def ws_send_def split: option.splits if_splits)

lemma handleWebSocket_grows:
  "prefix (trace s) (trace (snd (handleWebSocket throws key pe pn pc pr s)))"
  by (auto simp: handleWebSocket_def Let_def ws_send_def split: option.splits if_splits)

lemma broadcast_grows: "prefix (trace s) (trace (broadcast throws m ex s))"
  by (simp add: broadcast_trace)

lemma clear_loop_grows: "prefix (trace s) (trace (clear_loop throws ids s))"
proof (induction ids arbitrary: s)
  case Nil
  then show ?case by simp
next
  case (Cons i ids)
  have "prefix (trace s) (trace (broadcast throws (ItemDeleted i) None (s\<lparr>items := AList.delete i (items s)\<rparr>)))"
    by (simp add: broadcast_trace)
  then show ?case
    using Cons.IH prefix_order.trans by fastforce
qed

lemma fetch_grows: "prefix (trace s) (trace (snd (fetch throws now req s)))"
proof (cases req)
  case (ReqUpgrade key pe pn pc pr)
  then show ?thesis
    using handleWebSocket_grows [of "initialize s" throws key pe pn pc pr]
    by (simp add: fetch_def Let_def initialize_frame)
next
  case ReqClearDone
  then show ?thesis
    using clear_loop_grows [of "initialize s"]
    by (simp add: fetch_ClearDone saveItems_def initialize_frame)
next
  case (ReqPatchSchema sch)
  then show ?thesis
    by (simp add: fetch_def Let_def broadcast_trace saveSchema_def saveMeta_def initialize_frame
        split: option.splits)
next
  case (ReqPatchItem itemId updates)
  then show ?thesis
    by (simp add: fetch_PatchItem broadcast_trace saveItems_def initialize_frame split: option.splits)
qed (simp_all add: fetch_def Let_def broadcast_trace saveItems_def saveSchema_def saveMeta_def
      initialize_frame)

lemma on_message_grows: "prefix (trace s) (trace (on_message throws now sess data s))"
  by (simp add: on_message_def Let_def reply_view_only_def ws_send_def relay_loop_eq
      broadcast_loop_trace broadcast_trace saveItems_def saveYjsDoc_def
      split: ws_data.splits client_msg.splits option.splits)

lemma step_grows: "prefix (trace s) (trace (step i s))"
proof -
  obtain throws now inp where i: "i = (throws, now, inp)"
    by (cases i)
  show ?thesis
    unfolding i
    by (cases inp)
      (simp_all add: fetch_grows on_message_grows on_close_def on_timer_def broadcastPresence_def
        broadcast_trace)
qed

lemma run_grows: "prefix (trace s) (trace (run ins s))"
  unfolding run_def
proof (induction ins arbitrary: s)
  case Nil
  then show ?case by simp
next
  case (Cons i ins)
  show ?case
    using step_grows [of s i] Cons.IH [of "step i s"] by (simp add: prefix_order.trans)
qed

lemma sends_to_append: "sends_to key (xs @ ys) = sends_to key xs @ sends_to key ys"
  by (induction key xs rule: sends_to.induct) simp_all

text \<open>
  C5. When the upgrade is accepted (status 101), what the object has done is: one
  \<open>items-changed\<close> with the current items sent to the new client, then, if the Yjs
  document is not empty, one \<open>crdt-sync\<close> with it, and nothing else; the presence
  broadcast is only a pending timer. Whatever the object does afterwards, for any later
  events, comes after these messages in the trace: for a key that had received nothing
  before, the messages it receives start with the snapshot.
\<close>

theorem snapshot_is_sent_first:
  assumes "fetch throws now (ReqUpgrade key pe pn pc pr) s = (RespNull 101, s')"
  shows "trace s' = trace s @ Send key (ItemsChanged (map snd (items (initialize s))))
            # (case yjsDocState (initialize s) of
                 None \<Rightarrow> []
               | Some b \<Rightarrow> if b = [] then [] else [Send key (CrdtSync b)])
     \<and> timers s' = Suc (timers s)
     \<and> (\<exists>later. trace (run ins s') = trace s' @ later)
     \<and> (sends_to key (trace s) = [] \<longrightarrow>
          prefix (ItemsChanged (map snd (items (initialize s)))
                   # (case yjsDocState (initialize s) of
                        None \<Rightarrow> []
                      | Some b \<Rightarrow> if b = [] then [] else [CrdtSync b]))
                 (sends_to key (trace (run ins s'))))"
proof -
  have h: "handleWebSocket throws key pe pn pc pr (initialize s) = (RespNull 101, s')"
    using assms by (simp add: fetch_def Let_def)
  have t: "trace s' = trace s @ Send key (ItemsChanged (map snd (items (initialize s))))
            # (case yjsDocState (initialize s) of
                 None \<Rightarrow> []
               | Some b \<Rightarrow> if b = [] then [] else [Send key (CrdtSync b)])"
    and tm: "timers s' = Suc (timers s)"
    using handleWebSocket_accepted [OF h] by (simp_all add: initialize_frame)
  have "prefix (trace s') (trace (run ins s'))"
    by (rule run_grows)
  then obtain later where l: "trace (run ins s') = trace s' @ later"
    by (auto simp: prefix_def)
  have "sends_to key (trace s) = [] \<longrightarrow>
      prefix (ItemsChanged (map snd (items (initialize s)))
               # (case yjsDocState (initialize s) of
                    None \<Rightarrow> []
                  | Some b \<Rightarrow> if b = [] then [] else [CrdtSync b]))
             (sends_to key (trace (run ins s')))"
    by (simp add: l t sends_to_append split: option.splits)
  then show ?thesis
    using t tm l by blast
qed

theorem snapshot_is_sent_first_witness:
  "fetch all_open 9 (ReqUpgrade ''dd-4'' (Some ''dd@x.org'') None None (Some Editor)) camping_ledger =
     (RespNull 101,
      snd (fetch all_open 9 (ReqUpgrade ''dd-4'' (Some ''dd@x.org'') None None (Some Editor)) camping_ledger))
   \<and> trace (snd (fetch all_open 9 (ReqUpgrade ''dd-4'' (Some ''dd@x.org'') None None (Some Editor))
        camping_ledger)) =
       [Send ''dd-4'' (ItemsChanged [tent, stove]), Send ''dd-4'' (CrdtSync [1, 2])]
   \<and> prefix [ItemsChanged [tent, stove], CrdtSync [1, 2]]
        (sends_to ''dd-4'' (trace (run [(all_open, 10, Timer)]
           (snd (fetch all_open 9 (ReqUpgrade ''dd-4'' (Some ''dd@x.org'') None None (Some Editor))
              camping_ledger)))))"
proof -
  have h: "fetch all_open 9 (ReqUpgrade ''dd-4'' (Some ''dd@x.org'') None None (Some Editor)) camping_ledger =
     (RespNull 101,
      snd (fetch all_open 9 (ReqUpgrade ''dd-4'' (Some ''dd@x.org'') None None (Some Editor)) camping_ledger))"
    by (simp add: fetch_def handleWebSocket_def Let_def ws_send_def initialize_def all_open_def
        camping_ledger_def camping_def)
  from snapshot_is_sent_first [OF h, of "[(all_open, 10, Timer)]"] h
  show ?thesis
    by (simp add: initialize_def camping_ledger_def camping_def)
qed

section \<open>The share set\<close>

lemma list_all_update:
  "list_all P al \<Longrightarrow> P (k, v) \<Longrightarrow> list_all P (AList.update k v al)"
  by (induction al) auto

lemma kv_inv_lookup: "kv_inv env \<Longrightarrow> getListMeta listId env = Some m \<Longrightarrow> share_inv m"
  unfolding kv_inv_def getListMeta_def
  by (auto simp: list_all_iff dest: map_of_SomeD)

lemma kv_inv_put:
  "kv_inv env \<Longrightarrow> share_inv m \<Longrightarrow> kv_inv (env\<lparr>kv_lists := AList.update listId m (kv_lists env)\<rparr>)"
  by (simp add: kv_inv_def list_all_update)

lemma kv_inv_user_index:
  "kv_inv (addListToUserIndex e listId env) = kv_inv env"
  "kv_inv (removeListFromUserIndex e listId env) = kv_inv env"
  by (simp_all add: kv_inv_def addListToUserIndex_def removeListFromUserIndex_def Let_def
      split: option.splits)

lemma set_first_role_emails: "map share_email (set_first_role e r shs) = map share_email shs"
  by (induction shs) auto

lemma share_inv_add:
  assumes "share_inv m" and "e \<noteq> ownerEmail m" and "\<not> list_ex (\<lambda>sh. share_email sh = e) (shares m)"
  shows "share_inv (m\<lparr>shares := shares m @ [\<lparr>share_email = e, share_role = r\<rparr>]\<rparr>)"
  using assms by (auto simp: share_inv_def list_ex_iff)

lemma share_inv_update: "share_inv m \<Longrightarrow> share_inv (m\<lparr>shares := set_first_role e r (shares m)\<rparr>)"
  by (simp add: share_inv_def set_first_role_emails)

lemma share_inv_remove:
  "share_inv m \<Longrightarrow> share_inv (m\<lparr>shares := filter (\<lambda>sh. share_email sh \<noteq> e) (shares m)\<rparr>)"
  by (auto simp: share_inv_def distinct_map_filter)

lemma handleAddShare_inv: "kv_inv env \<Longrightarrow> kv_inv (snd (handleAddShare listId e r u env))"
  by (auto simp: handleAddShare_def Let_def kv_inv_user_index
      intro!: kv_inv_put share_inv_add dest: kv_inv_lookup split: option.splits)

lemma handleUpdateShare_inv:
  "kv_inv env \<Longrightarrow> kv_inv (snd (handleUpdateShare decode listId t r u env))"
  by (auto simp: handleUpdateShare_def Let_def
      intro!: kv_inv_put share_inv_update dest: kv_inv_lookup split: option.splits)

lemma handleRemoveShare_inv:
  "kv_inv env \<Longrightarrow> kv_inv (snd (handleRemoveShare decode listId t u env))"
  by (auto simp: handleRemoveShare_def Let_def kv_inv_user_index
      intro!: kv_inv_put share_inv_remove dest: kv_inv_lookup split: option.splits)

lemma created_meta_inv: "share_inv (created_meta new_id nm sch now u)"
  by (simp add: share_inv_def created_meta_def)

text \<open>
  C7. If every list record in the index has its owner outside its shares and no email
  twice in its shares, then so has every record after any share operation (add, update,
  remove), whoever sends it and whatever it names.
\<close>

theorem share_ops_keep_share_invariant:
  assumes "kv_inv env"
  shows "kv_inv (snd (share_route decode op u env))
     \<and> share_inv (created_meta new_id nm sch now u)"
  using assms
  by (cases op)
    (simp_all add: handleAddShare_inv handleUpdateShare_inv handleRemoveShare_inv created_meta_inv)

lemma add_bob_shares:
  "map_of (kv_lists (snd (share_route decode_plain (AddShare ''L1'' ''Bob@x.org'' Editor) ann_jwt camping_env))) ''L1'' =
     Some (camping_meta\<lparr>shares := [\<lparr>share_email = ''bob@x.org'', share_role = Editor\<rparr>]\<rparr>)"
  by (simp add: handleAddShare_def getListMeta_def isAllowedEmail_def toLowerCase_def lower_char_def
      char_of_def bit_0 trim_def is_space_def addListToUserIndex_def Let_def
      camping_env_def camping_meta_def created_meta_def ann_jwt_def)

theorem share_ops_keep_share_invariant_witness:
  "kv_inv camping_env
   \<and> kv_inv (snd (share_route decode_plain (AddShare ''L1'' ''Bob@x.org'' Editor) ann_jwt camping_env))
   \<and> map_of (kv_lists (snd (share_route decode_plain (AddShare ''L1'' ''Bob@x.org'' Editor) ann_jwt camping_env))) ''L1'' =
       Some (camping_meta\<lparr>shares := [\<lparr>share_email = ''bob@x.org'', share_role = Editor\<rparr>]\<rparr>)"
proof -
  have h: "kv_inv camping_env"
    by (simp add: kv_inv_def share_inv_def camping_env_def camping_meta_def created_meta_def)
  from share_ops_keep_share_invariant [OF h, of decode_plain "AddShare ''L1'' ''Bob@x.org'' Editor" ann_jwt]
    h add_bob_shares
  show ?thesis by simp
qed

end
